theory Spec2Isabelle
  imports Main
begin

section \<open>Runtime values, types and AST nodes\<close>

text \<open>
  Python values as far as \<open>graphql/execution/values.py\<close> inspects them: the module only
  tests a value against \<open>None\<close> and against the sentinel \<open>INVALID\<close> (``no value'', a
  singleton distinct from \<open>None\<close>); everything else is passed on unchanged.
\<close>

datatype pyval =
    PNone
  | INVALID
  | PBool bool
  | PInt int
  | PStr string
  | PList "pyval list"
  | PDict "(string \<times> pyval) list"

text \<open>
  Modelled from the spec: the type-system classes of \<open>graphql.type\<close> are not part of the
  module.  Section 3 of the specification lists the input type variants (scalar, enum,
  input object, list and non-null wrappers); object, interface and union types are the
  output types that a variable must not use.
\<close>

datatype graphql_type =
    GraphQLScalarType string
  | GraphQLEnumType string
  | GraphQLInputObjectType string
  | GraphQLObjectType string
  | GraphQLInterfaceType string
  | GraphQLUnionType string
  | GraphQLList graphql_type
  | GraphQLNonNull graphql_type

text \<open>
  Modelled from the spec: \<open>is_input_type\<close> and \<open>is_non_null_type\<close> of \<open>graphql.type\<close>.
  An input type is a scalar, enum or input object, or a list or non-null wrapper around one
  (glossary, ``Input type''); a non-null type is one whose outermost constructor is the
  non-null wrapper.
\<close>

fun is_input_type :: "graphql_type \<Rightarrow> bool" where
  "is_input_type (GraphQLScalarType n) = True"
| "is_input_type (GraphQLEnumType n) = True"
| "is_input_type (GraphQLInputObjectType n) = True"
| "is_input_type (GraphQLList t) = is_input_type t"
| "is_input_type (GraphQLNonNull t) = is_input_type t"
| "is_input_type t = False"

fun is_non_null_type :: "graphql_type \<Rightarrow> bool" where
  "is_non_null_type (GraphQLNonNull t) = True"
| "is_non_null_type t = False"

text \<open>
  Modelled from the spec: the AST node classes of \<open>graphql.language\<close> that the module
  reads.  A name node is identified with its string (\<open>node.name.value\<close>).
\<close>

datatype type_node =
    NamedTypeNode string
  | ListTypeNode type_node
  | NonNullTypeNode type_node

datatype value_node =
    VariableNode string
  | NullValueNode
  | IntValueNode string
  | FloatValueNode string
  | StringValueNode string
  | BooleanValueNode bool
  | EnumValueNode string
  | ListValueNode "value_node list"
  | ObjectValueNode "(string \<times> value_node) list"

datatype variable_definition_node =
  VariableDefinitionNode (variable: string) (type_node: type_node)
    (default_value: "value_node option")

datatype argument_node =
  ArgumentNode (argument_name: string) (argument_value: value_node)

datatype directive_node =
  DirectiveNode (directive_name: string) (directive_arguments: "argument_node list option")

datatype field_node =
  FieldNode (field_name: string) (field_arguments: "argument_node list option")
    (field_directives: "directive_node list option")

text \<open>\<open>Union[FieldNode, DirectiveNode]\<close>, the node whose arguments are coerced.\<close>

datatype invocation_node = Field field_node | Directive directive_node

fun arguments :: "invocation_node \<Rightarrow> argument_node list option" where
  "arguments (Field f) = field_arguments f"
| "arguments (Directive d) = directive_arguments d"

text \<open>
  \<open>NodeWithDirective\<close>: of such a node the module reads the attribute \<open>directives\<close> only,
  which is \<open>None\<close> or a list.
\<close>

datatype node_with_directive =
  NodeWithDirective (directives: "directive_node list option")

text \<open>The AST node an error points at (second argument of \<open>GraphQLError\<close>).\<close>

datatype node_ref =
    TypeNodeRef type_node
  | VariableDefinitionRef variable_definition_node
  | ValueNodeRef value_node
  | InvocationRef invocation_node

record graphql_error =
  message :: string
  nodes :: node_ref

text \<open>
  \<open>GraphQLArgument\<close>: \<open>default_value\<close> is \<open>INVALID\<close> when no default is declared;
  \<open>out_name\<close> is optional.
\<close>

record graphql_argument =
  arg_type :: graphql_type
  arg_default_value :: pyval
  out_name :: "string option"

text \<open>
  \<open>Union[GraphQLField, GraphQLDirective]\<close>: \<open>args\<close> is a dictionary, whose items are
  visited in insertion order (the list of its items, whose keys are distinct in Python);
  only a directive definition has a name.
\<close>

record type_def =
  args :: "(string \<times> graphql_argument) list"

record graphql_directive = type_def +
  name :: string

section \<open>Collaborators\<close>

text \<open>
  \<open>CoercedValue\<close>, the result of \<open>coerce_value\<close>: an optional list of errors and the
  coerced value.
\<close>

record coerced_value =
  coerced_errors :: "graphql_error list option"
  coerced_result :: pyval

text \<open>
  The functions the module imports from \<open>graphql.utilities\<close>, \<open>graphql.language\<close> and
  \<open>graphql.pyutils\<close> are parameters of the model: \<open>type_from_ast\<close>, \<open>value_from_ast\<close>,
  \<open>coerce_value\<close>, \<open>print_ast\<close> (on type nodes and on value nodes), \<open>inspect\<close> (on
  types and on runtime values) and \<open>str\<close> on a type.
\<close>

record 's collaborators =
  type_from_ast :: "'s \<Rightarrow> type_node \<Rightarrow> graphql_type option"
  value_from_ast :: "value_node \<Rightarrow> graphql_type \<Rightarrow> (string \<rightharpoonup> pyval) option \<Rightarrow> pyval"
  coerce_value :: "pyval \<Rightarrow> graphql_type \<Rightarrow> variable_definition_node \<Rightarrow> coerced_value"
  print_ast_type :: "type_node \<Rightarrow> string"
  print_ast_value :: "value_node \<Rightarrow> string"
  inspect_type :: "graphql_type \<Rightarrow> string"
  inspect_value :: "pyval \<Rightarrow> string"
  str_type :: "graphql_type \<Rightarrow> string"

section \<open>Error messages\<close>

definition quoted :: "string \<Rightarrow> string" where
  "quoted s = CHR 0x27 # s @ [CHR 0x27]"

definition invalid_type_error :: "'s collaborators \<Rightarrow> variable_definition_node \<Rightarrow> graphql_error" where
  "invalid_type_error c d =
     \<lparr>message = ''Variable '' @ quoted (CHR ''$'' # variable d) @ '' expected value of type ''
          @ quoted (print_ast_type c (type_node d)) @ '' which cannot be used as an input type.'',
      nodes = TypeNodeRef (type_node d)\<rparr>"

definition required_variable_error ::
  "'s collaborators \<Rightarrow> variable_definition_node \<Rightarrow> graphql_type \<Rightarrow> graphql_error" where
  "required_variable_error c d var_type =
     \<lparr>message = ''Variable '' @ quoted (CHR ''$'' # variable d) @ '' of required type ''
          @ quoted (inspect_type c var_type) @ '' was not provided.'',
      nodes = VariableDefinitionRef d\<rparr>"

definition null_variable_error ::
  "'s collaborators \<Rightarrow> variable_definition_node \<Rightarrow> graphql_type \<Rightarrow> graphql_error" where
  "null_variable_error c d var_type =
     \<lparr>message = ''Variable '' @ quoted (CHR ''$'' # variable d) @ '' of non-null type ''
          @ quoted (inspect_type c var_type) @ '' must not be null.'',
      nodes = VariableDefinitionRef d\<rparr>"

definition invalid_value_prefix :: "'s collaborators \<Rightarrow> string \<Rightarrow> pyval \<Rightarrow> string" where
  "invalid_value_prefix c var_name v =
     ''Variable '' @ quoted (CHR ''$'' # var_name) @ '' got invalid value ''
       @ inspect_value c v @ ''; ''"

section \<open>The store of error objects\<close>

text \<open>
  \<open>GraphQLError\<close> objects are mutable and \<open>get_variable_values\<close> assigns to the
  \<open>message\<close> attribute of errors it did not create.  Error objects therefore live in a
  store: the object with address \<open>r\<close> is the \<open>r\<close>-th element of the store, and lists of
  errors are lists of addresses.
\<close>

type_synonym ref = nat
type_synonym store = "graphql_error list"

record vstate =
  heap :: store
  errors :: "ref list"
  coerced_values :: "string \<rightharpoonup> pyval"

text \<open>\<open>errors.append(GraphQLError(...))\<close>: a new object, appended to the error list.\<close>

definition append_new_error :: "graphql_error \<Rightarrow> vstate \<Rightarrow> vstate" where
  "append_new_error e s = s\<lparr>heap := heap s @ [e], errors := errors s @ [length (heap s)]\<rparr>"

text \<open>
  The call \<open>coerce_value(value, var_type, var_def_node)\<close>.  The collaborator builds its
  error objects anew on every call, so its effect on the store is their allocation; the
  attribute \<open>errors\<close> of its result is the list of their addresses.
\<close>

definition call_coerce_value ::
  "'s collaborators \<Rightarrow> pyval \<Rightarrow> graphql_type \<Rightarrow> variable_definition_node \<Rightarrow> store
     \<Rightarrow> (ref list option \<times> pyval) \<times> store" where
  "call_coerce_value c v var_type d h =
     (let coerced = coerce_value c v var_type d in
      case coerced_errors coerced of
        None \<Rightarrow> ((None, coerced_result coerced), h)
      | Some es \<Rightarrow> ((Some [length h ..< length h + length es], coerced_result coerced), h @ es))"

text \<open>\<open>error.message = msg\<close>: assignment to the attribute of the object at address \<open>r\<close>.\<close>

definition set_message :: "ref \<Rightarrow> string \<Rightarrow> store \<Rightarrow> store" where
  "set_message r msg h = h[r := (h ! r)\<lparr>message := msg\<rparr>]"

text \<open>The loop \<open>for error in coercion_errors: error.message = prefix + error.message\<close>.\<close>

fun rewrite_messages :: "string \<Rightarrow> ref list \<Rightarrow> store \<Rightarrow> store" where
  "rewrite_messages p [] h = h"
| "rewrite_messages p (r # rs) h = rewrite_messages p rs (set_message r (p @ message (h ! r)) h)"

section \<open>\<open>get_variable_values\<close>\<close>

text \<open>
  One iteration of the loop over \<open>var_def_nodes\<close> (lines 47 to 104).  \<open>type_from_ast\<close>
  returns \<open>None\<close> for a type it cannot resolve, which is not an input type.  An AST node
  is a truthy object, so \<open>if var_def_node.default_value:\<close> tests that a default is
  declared.  The test \<open>is_non_null_type(var_type)\<close> of line 70 is an \<open>if\<close> of its own: it
  is reached whether or not a default was stored.
\<close>

definition var_step ::
  "'s collaborators \<Rightarrow> 's \<Rightarrow> (string \<rightharpoonup> pyval) \<Rightarrow> vstate \<Rightarrow> variable_definition_node \<Rightarrow> vstate" where
  "var_step c schema inputs s var_def_node =
     (let var_name = variable var_def_node in
      case type_from_ast c schema (type_node var_def_node) of
        None \<Rightarrow> append_new_error (invalid_type_error c var_def_node) s
      | Some var_type \<Rightarrow>
          if \<not> is_input_type var_type
          then append_new_error (invalid_type_error c var_def_node) s
          else
            (case inputs var_name of
               None \<Rightarrow>
                 (let s1 = (case default_value var_def_node of
                              Some dv \<Rightarrow>
                                s\<lparr>coerced_values :=
                                    (coerced_values s)(var_name \<mapsto> value_from_ast c dv var_type None)\<rparr>
                            | None \<Rightarrow> s)
                  in if is_non_null_type var_type
                     then append_new_error (required_variable_error c var_def_node var_type) s1
                     else s1)
             | Some v \<Rightarrow>
                 if v = PNone \<and> is_non_null_type var_type
                 then append_new_error (null_variable_error c var_def_node var_type) s
                 else
                   (case call_coerce_value c v var_type var_def_node (heap s) of
                      ((coercion_errors, cv), h1) \<Rightarrow>
                        (case coercion_errors of
                           None \<Rightarrow> s\<lparr>heap := h1, coerced_values := (coerced_values s)(var_name \<mapsto> cv)\<rparr>
                         | Some refs \<Rightarrow>
                             if refs \<noteq> []
                             then s\<lparr>heap := rewrite_messages (invalid_value_prefix c var_name v) refs h1,
                                    errors := errors s @ refs\<rparr>
                             else s\<lparr>heap := h1,
                                    coerced_values := (coerced_values s)(var_name \<mapsto> cv)\<rparr>))))"

fun var_loop ::
  "'s collaborators \<Rightarrow> 's \<Rightarrow> (string \<rightharpoonup> pyval) \<Rightarrow> variable_definition_node list \<Rightarrow> vstate \<Rightarrow> vstate" where
  "var_loop c schema inputs [] s = s"
| "var_loop c schema inputs (d # ds) s = var_loop c schema inputs ds (var_step c schema inputs s d)"

definition init_state :: vstate where
  "init_state = \<lparr>heap = [], errors = [], coerced_values = Map.empty\<rparr>"

text \<open>
  \<open>return errors or coerced_values\<close>: the error list when it is not empty, the dictionary
  otherwise.  The second component is the store at return.
\<close>

definition get_variable_values ::
  "'s collaborators \<Rightarrow> 's \<Rightarrow> variable_definition_node list \<Rightarrow> (string \<rightharpoonup> pyval)
     \<Rightarrow> (ref list + (string \<rightharpoonup> pyval)) \<times> store" where
  "get_variable_values c schema var_def_nodes inputs =
     (let s = var_loop c schema inputs var_def_nodes init_state in
      (if errors s \<noteq> [] then Inl (errors s) else Inr (coerced_values s), heap s))"

text \<open>The errors a result reports, read from the store at return.\<close>

definition error_list :: "(ref list + (string \<rightharpoonup> pyval)) \<times> store \<Rightarrow> graphql_error list" where
  "error_list r = (case fst r of Inl refs \<Rightarrow> map (\<lambda>a. snd r ! a) refs | Inr m \<Rightarrow> [])"

section \<open>\<open>get_argument_values\<close>\<close>

text \<open>\<open>arg_def.out_name or name\<close>: the alias unless it is \<open>None\<close> or the empty string.\<close>

definition out_key :: "graphql_argument \<Rightarrow> string \<Rightarrow> string" where
  "out_key arg_def arg_name =
     (case out_name arg_def of None \<Rightarrow> arg_name | Some s \<Rightarrow> if s = [] then arg_name else s)"

text \<open>
  \<open>{arg.name.value: arg for arg in node.arguments or []}\<close>: a later argument node of the
  same name replaces an earlier one.
\<close>

definition arg_node_map :: "invocation_node \<Rightarrow> (string \<rightharpoonup> argument_node)" where
  "arg_node_map node =
     foldl (\<lambda>m arg. m(argument_name arg \<mapsto> arg)) Map.empty
       (case arguments node of None \<Rightarrow> [] | Some as \<Rightarrow> as)"

definition argument_not_provided_error ::
  "'s collaborators \<Rightarrow> invocation_node \<Rightarrow> string \<Rightarrow> graphql_type \<Rightarrow> graphql_error" where
  "argument_not_provided_error c node arg_name t =
     \<lparr>message = ''Argument '' @ quoted arg_name @ '' of required type '' @ quoted (str_type c t)
          @ '' was not provided.'',
      nodes = InvocationRef node\<rparr>"

definition variable_not_provided_error ::
  "'s collaborators \<Rightarrow> value_node \<Rightarrow> string \<Rightarrow> graphql_type \<Rightarrow> string \<Rightarrow> graphql_error" where
  "variable_not_provided_error c value_node arg_name t variable_name =
     \<lparr>message = ''Argument '' @ quoted arg_name @ '' of required type '' @ quoted (str_type c t)
          @ '' was provided the variable '' @ quoted (CHR ''$'' # variable_name)
          @ '' which was not provided a runtime value.'',
      nodes = ValueNodeRef value_node\<rparr>"

definition null_argument_error ::
  "'s collaborators \<Rightarrow> value_node \<Rightarrow> string \<Rightarrow> graphql_type \<Rightarrow> graphql_error" where
  "null_argument_error c value_node arg_name t =
     \<lparr>message = ''Argument '' @ quoted arg_name @ '' of non-null type '' @ quoted (str_type c t)
          @ '' must not be null.'',
      nodes = ValueNodeRef value_node\<rparr>"

definition invalid_argument_error ::
  "'s collaborators \<Rightarrow> value_node \<Rightarrow> string \<Rightarrow> graphql_error" where
  "invalid_argument_error c value_node arg_name =
     \<lparr>message = ''Argument '' @ quoted arg_name @ '' has invalid value ''
          @ print_ast_value c value_node @ ''.'',
      nodes = ValueNodeRef value_node\<rparr>"

text \<open>
  Lines 155 to 170: the null check, the call of \<open>value_from_ast\<close> and the store into the
  dictionary, once \<open>is_null\<close> is known.
\<close>

definition coerce_argument ::
  "'s collaborators \<Rightarrow> (string \<rightharpoonup> pyval) option \<Rightarrow> (string \<rightharpoonup> pyval) \<Rightarrow> string
     \<Rightarrow> graphql_argument \<Rightarrow> value_node \<Rightarrow> bool \<Rightarrow> graphql_error + (string \<rightharpoonup> pyval)" where
  "coerce_argument c variable_values coerced arg_name arg_def value_node is_null =
     (if is_null \<and> is_non_null_type (arg_type arg_def)
      then Inl (null_argument_error c value_node arg_name (arg_type arg_def))
      else
        (let coerced_value = value_from_ast c value_node (arg_type arg_def) variable_values in
         if coerced_value = INVALID
         then Inl (invalid_argument_error c value_node arg_name)
         else Inr (coerced(out_key arg_def arg_name \<mapsto> coerced_value))))"

text \<open>
  One iteration of the loop over \<open>type_def.args.items()\<close> (lines 122 to 170); \<open>Inl\<close> is
  the raised \<open>GraphQLError\<close>, \<open>Inr\<close> the dictionary after the iteration.
\<close>

definition arg_step ::
  "'s collaborators \<Rightarrow> invocation_node \<Rightarrow> (string \<rightharpoonup> pyval) option \<Rightarrow> (string \<rightharpoonup> pyval)
     \<Rightarrow> string \<times> graphql_argument \<Rightarrow> graphql_error + (string \<rightharpoonup> pyval)" where
  "arg_step c node variable_values coerced item =
     (case item of (arg_name, arg_def) \<Rightarrow>
        (case arg_node_map node arg_name of
           None \<Rightarrow>
             if arg_default_value arg_def \<noteq> INVALID
             then Inr (coerced(out_key arg_def arg_name \<mapsto> arg_default_value arg_def))
             else if is_non_null_type (arg_type arg_def)
             then Inl (argument_not_provided_error c node arg_name (arg_type arg_def))
             else Inr coerced
         | Some argument_node \<Rightarrow>
             (let value_node = argument_value argument_node in
              case value_node of
                VariableNode variable_name \<Rightarrow>
                  (case (case variable_values of None \<Rightarrow> None | Some vv \<Rightarrow> vv variable_name) of
                     None \<Rightarrow>
                       if arg_default_value arg_def \<noteq> INVALID
                       then Inr (coerced(out_key arg_def arg_name \<mapsto> arg_default_value arg_def))
                       else if is_non_null_type (arg_type arg_def)
                       then Inl (variable_not_provided_error c value_node arg_name
                                   (arg_type arg_def) variable_name)
                       else Inr coerced
                   | Some v \<Rightarrow>
                       coerce_argument c variable_values coerced arg_name arg_def value_node
                         (v = PNone))
              | _ \<Rightarrow>
                  coerce_argument c variable_values coerced arg_name arg_def value_node
                    (value_node = NullValueNode))))"

text \<open>The loop: a raised error ends it.\<close>

fun arg_loop ::
  "'s collaborators \<Rightarrow> invocation_node \<Rightarrow> (string \<rightharpoonup> pyval) option
     \<Rightarrow> (string \<times> graphql_argument) list \<Rightarrow> (string \<rightharpoonup> pyval)
     \<Rightarrow> graphql_error + (string \<rightharpoonup> pyval)" where
  "arg_loop c node variable_values [] coerced = Inr coerced"
| "arg_loop c node variable_values (item # items) coerced =
     (case arg_step c node variable_values coerced item of
        Inl e \<Rightarrow> Inl e
      | Inr coerced' \<Rightarrow> arg_loop c node variable_values items coerced')"

definition get_argument_values ::
  "'s collaborators \<Rightarrow> 'a type_def_scheme \<Rightarrow> invocation_node
     \<Rightarrow> (string \<rightharpoonup> pyval) option \<Rightarrow> graphql_error + (string \<rightharpoonup> pyval)" where
  "get_argument_values c type_def node variable_values =
     arg_loop c node variable_values (args type_def) Map.empty"

section \<open>\<open>get_directive_values\<close>\<close>

text \<open>
  The loop over \<open>directives\<close>: the first directive of the definition's name returns;
  falling out of the loop returns \<open>None\<close>.
\<close>

fun directive_loop ::
  "'s collaborators \<Rightarrow> graphql_directive \<Rightarrow> (string \<rightharpoonup> pyval) option \<Rightarrow> directive_node list
     \<Rightarrow> graphql_error + (string \<rightharpoonup> pyval) option" where
  "directive_loop c directive_def variable_values [] = Inr None"
| "directive_loop c directive_def variable_values (directive # rest) =
     (if directive_name directive = name directive_def
      then (case get_argument_values c directive_def (Directive directive) variable_values of
              Inl e \<Rightarrow> Inl e
            | Inr m \<Rightarrow> Inr (Some m))
      else directive_loop c directive_def variable_values rest)"

definition get_directive_values ::
  "'s collaborators \<Rightarrow> graphql_directive \<Rightarrow> node_with_directive \<Rightarrow> (string \<rightharpoonup> pyval) option
     \<Rightarrow> graphql_error + (string \<rightharpoonup> pyval) option" where
  "get_directive_values c directive_def node variable_values =
     (case directives node of
        None \<Rightarrow> Inr None
      | Some ds \<Rightarrow>
          if ds \<noteq> [] then directive_loop c directive_def variable_values ds else Inr None)"

section \<open>A concrete set of collaborators\<close>

text \<open>
  The theorems below hold for every set of collaborators.  To evaluate the functions on
  concrete documents a small stand-in is used: a schema is a list of named types, and
  runtime values of the scalars \<open>Int\<close>, \<open>String\<close>, \<open>ID\<close> and \<open>Boolean\<close> and
  string, boolean and null literals are coerced.
\<close>

fun sample_type_from_ast :: "(string \<times> graphql_type) list \<Rightarrow> type_node \<Rightarrow> graphql_type option" where
  "sample_type_from_ast schema (NamedTypeNode n) = map_of schema n"
| "sample_type_from_ast schema (ListTypeNode t) = map_option GraphQLList (sample_type_from_ast schema t)"
| "sample_type_from_ast schema (NonNullTypeNode t) =
     map_option GraphQLNonNull (sample_type_from_ast schema t)"

fun sample_str_type :: "graphql_type \<Rightarrow> string" where
  "sample_str_type (GraphQLList t) = ''['' @ sample_str_type t @ '']''"
| "sample_str_type (GraphQLNonNull t) = sample_str_type t @ ''!''"
| "sample_str_type (GraphQLScalarType n) = n"
| "sample_str_type (GraphQLEnumType n) = n"
| "sample_str_type (GraphQLInputObjectType n) = n"
| "sample_str_type (GraphQLObjectType n) = n"
| "sample_str_type (GraphQLInterfaceType n) = n"
| "sample_str_type (GraphQLUnionType n) = n"

fun sample_print_type :: "type_node \<Rightarrow> string" where
  "sample_print_type (NamedTypeNode n) = n"
| "sample_print_type (ListTypeNode t) = ''['' @ sample_print_type t @ '']''"
| "sample_print_type (NonNullTypeNode t) = sample_print_type t @ ''!''"

definition sample_print_value :: "value_node \<Rightarrow> string" where
  "sample_print_value v =
     (case v of
        VariableNode n \<Rightarrow> CHR ''$'' # n
      | NullValueNode \<Rightarrow> ''null''
      | IntValueNode s \<Rightarrow> s
      | FloatValueNode s \<Rightarrow> s
      | StringValueNode s \<Rightarrow> CHR 0x22 # s @ [CHR 0x22]
      | BooleanValueNode b \<Rightarrow> if b then ''true'' else ''false''
      | EnumValueNode s \<Rightarrow> s
      | _ \<Rightarrow> ''...'')"

definition sample_inspect :: "pyval \<Rightarrow> string" where
  "sample_inspect v =
     (case v of
        PNone \<Rightarrow> ''None''
      | INVALID \<Rightarrow> ''<INVALID>''
      | PBool b \<Rightarrow> if b then ''True'' else ''False''
      | PStr s \<Rightarrow> quoted s
      | _ \<Rightarrow> ''...'')"

fun sample_literal :: "value_node \<Rightarrow> graphql_type \<Rightarrow> pyval" where
  "sample_literal v (GraphQLNonNull t) = (if v = NullValueNode then INVALID else sample_literal v t)"
| "sample_literal v (GraphQLScalarType n) =
     (case v of
        NullValueNode \<Rightarrow> PNone
      | StringValueNode s \<Rightarrow> if n = ''String'' \<or> n = ''ID'' then PStr s else INVALID
      | BooleanValueNode b \<Rightarrow> if n = ''Boolean'' then PBool b else INVALID
      | _ \<Rightarrow> INVALID)"
| "sample_literal v t = (if v = NullValueNode then PNone else INVALID)"

definition sample_value_from_ast ::
  "value_node \<Rightarrow> graphql_type \<Rightarrow> (string \<rightharpoonup> pyval) option \<Rightarrow> pyval" where
  "sample_value_from_ast v t vars =
     (case v of
        VariableNode n \<Rightarrow>
          (case vars of
             None \<Rightarrow> INVALID
           | Some vv \<Rightarrow>
               (case vv n of
                  None \<Rightarrow> INVALID
                | Some x \<Rightarrow> if x = PNone \<and> is_non_null_type t then INVALID else x))
      | _ \<Rightarrow> sample_literal v t)"

definition sample_failure :: "string \<Rightarrow> variable_definition_node \<Rightarrow> coerced_value" where
  "sample_failure msg d =
     \<lparr>coerced_errors = Some [\<lparr>message = msg, nodes = VariableDefinitionRef d\<rparr>],
      coerced_result = INVALID\<rparr>"

fun sample_coerce_value :: "pyval \<Rightarrow> graphql_type \<Rightarrow> variable_definition_node \<Rightarrow> coerced_value" where
  "sample_coerce_value v (GraphQLNonNull t) d =
     (if v = PNone
      then sample_failure (''Expected non-nullable type '' @ sample_str_type (GraphQLNonNull t)
             @ '' not to be null.'') d
      else sample_coerce_value v t d)"
| "sample_coerce_value v (GraphQLScalarType n) d =
     (case v of
        PNone \<Rightarrow> \<lparr>coerced_errors = None, coerced_result = PNone\<rparr>
      | PStr s \<Rightarrow>
          if n = ''String'' \<or> n = ''ID''
          then \<lparr>coerced_errors = None, coerced_result = PStr s\<rparr>
          else sample_failure (''Expected type '' @ n @ ''.'') d
      | PBool b \<Rightarrow>
          if n = ''Boolean''
          then \<lparr>coerced_errors = None, coerced_result = PBool b\<rparr>
          else sample_failure (''Expected type '' @ n @ ''.'') d
      | PInt i \<Rightarrow>
          if n = ''Int''
          then \<lparr>coerced_errors = None, coerced_result = PInt i\<rparr>
          else sample_failure (''Expected type '' @ n @ ''.'') d
      | _ \<Rightarrow> sample_failure (''Expected type '' @ n @ ''.'') d)"
| "sample_coerce_value v t d =
     (if v = PNone then \<lparr>coerced_errors = None, coerced_result = PNone\<rparr>
      else sample_failure (''Expected type '' @ sample_str_type t @ ''.'') d)"

definition sample :: "(string \<times> graphql_type) list collaborators" where
  "sample =
     \<lparr>type_from_ast = sample_type_from_ast,
      value_from_ast = sample_value_from_ast,
      coerce_value = sample_coerce_value,
      print_ast_type = sample_print_type,
      print_ast_value = sample_print_value,
      inspect_type = sample_str_type,
      inspect_value = sample_inspect,
      str_type = sample_str_type\<rparr>"

definition sample_schema :: "(string \<times> graphql_type) list" where
  "sample_schema =
     [(''Int'', GraphQLScalarType ''Int''),
      (''String'', GraphQLScalarType ''String''),
      (''ID'', GraphQLScalarType ''ID''),
      (''Boolean'', GraphQLScalarType ''Boolean''),
      (''Query'', GraphQLObjectType ''Query'')]"

text \<open>Variable definitions of example documents.\<close>

definition flag_var :: variable_definition_node where
  "flag_var = VariableDefinitionNode ''flag'' (NamedTypeNode ''Boolean'') None"

definition limit_var :: variable_definition_node where
  "limit_var = VariableDefinitionNode ''limit'' (NonNullTypeNode (NamedTypeNode ''Int'')) None"

definition name_var :: variable_definition_node where
  "name_var = VariableDefinitionNode ''name'' (NamedTypeNode ''String'') (Some (StringValueNode ''x''))"

definition title_var :: variable_definition_node where
  "title_var =
     VariableDefinitionNode ''title'' (NonNullTypeNode (NamedTypeNode ''String''))
       (Some (StringValueNode ''a''))"


definition note_var :: variable_definition_node where
  "note_var = VariableDefinitionNode ''note'' (NamedTypeNode ''String'') (Some NullValueNode)"

text \<open>Argument and directive definitions of an example schema, and nodes applying them.\<close>

definition id_arg :: "string \<times> graphql_argument" where
  "id_arg =
     (''id'', \<lparr>arg_type = GraphQLNonNull (GraphQLScalarType ''ID''), arg_default_value = INVALID,
              out_name = None\<rparr>)"

definition flag_arg :: "string \<times> graphql_argument" where
  "flag_arg =
     (''flag'', \<lparr>arg_type = GraphQLScalarType ''Boolean'', arg_default_value = INVALID,
                out_name = None\<rparr>)"

definition name_arg :: "string \<times> graphql_argument" where
  "name_arg =
     (''name'', \<lparr>arg_type = GraphQLScalarType ''String'', arg_default_value = PStr ''x'',
                out_name = Some ''user_name''\<rparr>)"

definition user_field :: type_def where
  "user_field = \<lparr>args = [id_arg, flag_arg, name_arg]\<rparr>"

definition user_node :: invocation_node where
  "user_node = Field (FieldNode ''user'' (Some [ArgumentNode ''flag'' (BooleanValueNode True)]) None)"

definition user_by_variable_node :: invocation_node where
  "user_by_variable_node =
     Field (FieldNode ''user'' (Some [ArgumentNode ''id'' (VariableNode ''id'')]) None)"

definition skip_directive :: graphql_directive where
  "skip_directive =
     \<lparr>args = [(''if'', \<lparr>arg_type = GraphQLNonNull (GraphQLScalarType ''Boolean''),
                        arg_default_value = INVALID, out_name = None\<rparr>)],
      name = ''skip''\<rparr>"

definition include_directive :: graphql_directive where
  "include_directive =
     \<lparr>args = [(''if'', \<lparr>arg_type = GraphQLNonNull (GraphQLScalarType ''Boolean''),
                        arg_default_value = INVALID, out_name = None\<rparr>)],
      name = ''include''\<rparr>"

definition skipped_node :: node_with_directive where
  "skipped_node =
     NodeWithDirective
       (Some [DirectiveNode ''deprecated'' None,
              DirectiveNode ''skip'' (Some [ArgumentNode ''if'' (VariableNode ''cond'')])])"

section \<open>Vocabulary of the properties\<close>

text \<open>
  An error names the variable \<open>x\<close> when its message starts with \<open>Variable '$x'\<close> followed
  by a space, as every message built by \<open>get_variable_values\<close> for \<open>x\<close> does.
\<close>

definition names_variable :: "string \<Rightarrow> graphql_error \<Rightarrow> bool" where
  "names_variable x e =
     (let p = ''Variable '' @ quoted (CHR ''$'' # x) @ '' '' in take (length p) (message e) = p)"

section \<open>The store and the loop of \<open>get_variable_values\<close>\<close>

lemmas sample_defs = sample_def sample_schema_def sample_failure_def sample_value_from_ast_def
  sample_inspect_def sample_print_value_def

lemmas var_defs = get_variable_values_def var_step_def init_state_def append_new_error_def
  call_coerce_value_def set_message_def required_variable_error_def null_variable_error_def
  invalid_type_error_def invalid_value_prefix_def quoted_def error_list_def Let_def

text \<open>
  Rewriting the messages of freshly allocated objects changes exactly these objects, each
  once.
\<close>

lemma rewrite_messages_fresh:
  "rewrite_messages p [length h ..< length h + length es] (h @ es)
     = h @ map (\<lambda>e. e\<lparr>message := p @ message e\<rparr>) es"
proof (induction es arbitrary: h)
  case Nil
  then show ?case by simp
next
  case (Cons e es)
  have "[length h ..< length h + length (e # es)]
          = length h # [length (h @ [e\<lparr>message := p @ message e\<rparr>])
                          ..< length (h @ [e\<lparr>message := p @ message e\<rparr>]) + length es]"
    using upt_conv_Cons [of "length h" "length h + Suc (length es)"] by simp
  moreover have "set_message (length h) (p @ message ((h @ e # es) ! length h)) (h @ e # es)
          = (h @ [e\<lparr>message := p @ message e\<rparr>]) @ es"
    by (simp add: set_message_def)
  ultimately show ?case
    using Cons.IH [of "h @ [e\<lparr>message := p @ message e\<rparr>]"] by simp
qed

lemma var_step_eq:
  "var_step c schema inputs s d =
     s\<lparr>heap := heap s @ heap (var_step c schema inputs init_state d),
       errors := errors s @ [length (heap s) ..<
                    length (heap s) + length (heap (var_step c schema inputs init_state d))],
       coerced_values := coerced_values s ++ coerced_values (var_step c schema inputs init_state d)\<rparr>"
  apply (simp add: var_step_def init_state_def append_new_error_def call_coerce_value_def Let_def
      split: option.splits)
  apply (auto simp: rewrite_messages_fresh rewrite_messages_fresh [of _ "[]", simplified])
  done

text \<open>
  An iteration extends the store, the error list and the dictionary by what the definition
  yields when it is processed alone; nothing it does depends on the state it starts from.
\<close>

lemma var_loop_append:
  "var_loop c schema inputs (xs @ ys) s = var_loop c schema inputs ys (var_loop c schema inputs xs s)"
  by (induction xs arbitrary: s) simp_all

lemma var_loop_heap:
  "heap (var_loop c schema inputs ds s)
     = heap s @ concat (map (\<lambda>d. heap (var_step c schema inputs init_state d)) ds)"
proof (induction ds arbitrary: s)
  case Nil
  then show ?case by simp
next
  case (Cons d ds)
  have "heap (var_step c schema inputs s d) = heap s @ heap (var_step c schema inputs init_state d)"
    by (subst var_step_eq) simp
  then show ?case using Cons.IH [of "var_step c schema inputs s d"] by simp
qed

lemma var_loop_errors:
  "errors s = [0 ..< length (heap s)] \<Longrightarrow>
   errors (var_loop c schema inputs ds s) = [0 ..< length (heap (var_loop c schema inputs ds s))]"
proof (induction ds arbitrary: s)
  case Nil
  then show ?case by simp
next
  case (Cons d ds)
  let ?s = "var_step c schema inputs s d"
  have h: "heap ?s = heap s @ heap (var_step c schema inputs init_state d)"
    by (subst var_step_eq) simp
  have "errors ?s = errors s @ [length (heap s) ..<
           length (heap s) + length (heap (var_step c schema inputs init_state d))]"
    by (subst var_step_eq) simp
  with Cons.prems h have "errors ?s = [0 ..< length (heap ?s)]"
    by (simp add: upt_add_eq_append [symmetric])
  then show ?case using Cons.IH [of ?s] by simp
qed

lemma var_loop_values:
  "coerced_values (var_loop c schema inputs ds s)
     = foldl (++) (coerced_values s)
         (map (\<lambda>d. coerced_values (var_step c schema inputs init_state d)) ds)"
proof (induction ds arbitrary: s)
  case Nil
  then show ?case by simp
next
  case (Cons d ds)
  have "coerced_values (var_step c schema inputs s d)
          = coerced_values s ++ coerced_values (var_step c schema inputs init_state d)"
    by (subst var_step_eq) simp
  then show ?case using Cons.IH [of "var_step c schema inputs s d"] by simp
qed

lemma init_state_errors: "errors init_state = [0 ..< length (heap init_state)]"
  by (simp add: init_state_def)

lemma errors_final:
  "errors (var_loop c schema inputs ds init_state)
     = [0 ..< length (heap (var_loop c schema inputs ds init_state))]"
  by (rule var_loop_errors [OF init_state_errors])

lemma error_list_heap:
  "error_list (get_variable_values c schema ds inputs) = heap (var_loop c schema inputs ds init_state)"
  by (simp add: error_list_def get_variable_values_def Let_def errors_final map_nth)


lemma error_list_concat:
  "error_list (get_variable_values c schema ds inputs)
     = concat (map (\<lambda>d. error_list (get_variable_values c schema [d] inputs)) ds)"
  by (simp add: error_list_heap var_loop_heap init_state_def)

lemma result_Inl_iff:
  "(\<exists>refs. fst (get_variable_values c schema ds inputs) = Inl refs)
     \<longleftrightarrow> error_list (get_variable_values c schema ds inputs) \<noteq> []"
  by (simp add: error_list_def get_variable_values_def Let_def errors_final)











section \<open>Claims about \<open>get_variable_values\<close>\<close>

text \<open>
  For every set of collaborators, a definition of non-null type that is absent from the
  inputs and declares a default has the default stored and the required-variable error
  appended in the same iteration.
\<close>

lemma var_step_required_with_default:
  assumes "type_from_ast c schema (type_node d) = Some ty" "is_input_type ty" "is_non_null_type ty"
    "inputs (variable d) = None" "default_value d = Some dv"
  shows "var_step c schema inputs s d =
           append_new_error (required_variable_error c d ty)
             (s\<lparr>coerced_values := (coerced_values s)(variable d \<mapsto> value_from_ast c dv ty None)\<rparr>)"
  using assms by (simp add: var_step_def)

text \<open>
  C1.  For a variable of non-null type that is absent from the inputs and declares a
  default, the claim has the default stored and no required-variable error recorded.  The
  code tests \<open>is_non_null_type\<close> in a second \<open>if\<close> (line 70), not in an \<open>elif\<close> as the two
  corresponding places of \<open>get_argument_values\<close> do (lines 129 and 145): for the document
  \<open>query ($title: String! = "a")\<close> and no inputs the call returns the error list with the
  required-variable error.
\<close>

theorem required_error_despite_default:
  "get_variable_values sample sample_schema [title_var] Map.empty
     = (Inl [0],
        [\<lparr>message = ''Variable '' @ quoted ''$title'' @ '' of required type '' @ quoted ''String!''
             @ '' was not provided.'',
          nodes = VariableDefinitionRef title_var\<rparr>])"
  by (simp add: var_defs sample_defs title_var_def)


text \<open>
  C2.  The claim has every declared variable name in exactly one of the error list and the
  dictionary.  On the same input as for C1 the loop ends with the name \<open>title\<close> in both:
  the dictionary maps it to the default and the error list holds an error naming it.
\<close>

theorem default_stored_and_error_recorded:
  "coerced_values (var_loop sample sample_schema Map.empty [title_var] init_state) ''title''
     = Some (PStr ''a'')
   \<and> map (\<lambda>r. heap (var_loop sample sample_schema Map.empty [title_var] init_state) ! r)
        (errors (var_loop sample sample_schema Map.empty [title_var] init_state))
     = [required_variable_error sample title_var (GraphQLNonNull (GraphQLScalarType ''String''))]
   \<and> names_variable ''title''
        (required_variable_error sample title_var (GraphQLNonNull (GraphQLScalarType ''String'')))"
  by (simp add: var_defs sample_defs title_var_def names_variable_def)





lemma result_Inl_single_iff:
  "(\<exists>refs. fst (get_variable_values c schema defs inputs) = Inl refs)
     \<longleftrightarrow> (\<exists>d\<in>set defs. \<exists>refs. fst (get_variable_values c schema [d] inputs) = Inl refs)"
  unfolding result_Inl_iff by (subst error_list_concat) auto

text \<open>
  C5.  The call returns the error list whenever the loop ends with a non-empty one, and
  the dictionary only when the error list is empty; a returned error list is never empty.
  An error list is returned exactly when some definition, processed alone, yields one:
  what the other definitions coerced is then not part of the result.
\<close>

theorem get_variable_values_errors_or_values:
  "(errors (var_loop c schema inputs defs init_state) \<noteq> [] \<longrightarrow>
      fst (get_variable_values c schema defs inputs)
        = Inl (errors (var_loop c schema inputs defs init_state)))
   \<and> (errors (var_loop c schema inputs defs init_state) = [] \<longrightarrow>
      fst (get_variable_values c schema defs inputs)
        = Inr (coerced_values (var_loop c schema inputs defs init_state)))
   \<and> (\<forall>refs. fst (get_variable_values c schema defs inputs) = Inl refs \<longrightarrow> refs \<noteq> [])
   \<and> ((\<exists>refs. fst (get_variable_values c schema defs inputs) = Inl refs)
        \<longleftrightarrow> (\<exists>d\<in>set defs. \<exists>refs. fst (get_variable_values c schema [d] inputs) = Inl refs))"
proof (intro conjI)
  show "(\<exists>refs. fst (get_variable_values c schema defs inputs) = Inl refs)
        \<longleftrightarrow> (\<exists>d\<in>set defs. \<exists>refs. fst (get_variable_values c schema [d] inputs) = Inl refs)"
    by (rule result_Inl_single_iff)
qed (simp_all add: get_variable_values_def Let_def)

theorem get_variable_values_errors_or_values_witness:
  "errors (var_loop sample sample_schema Map.empty [name_var, limit_var] init_state) \<noteq> []
   \<and> coerced_values (var_loop sample sample_schema Map.empty [name_var, limit_var] init_state) ''name''
       = Some (PStr ''x'')
   \<and> fst (get_variable_values sample sample_schema [name_var, limit_var] Map.empty) = Inl [0]"
proof -
  have h: "errors (var_loop sample sample_schema Map.empty [name_var, limit_var] init_state) \<noteq> []"
    by (simp add: var_defs sample_defs name_var_def limit_var_def)
  have e: "errors (var_loop sample sample_schema Map.empty [name_var, limit_var] init_state) = [0]"
    by (simp add: var_defs sample_defs name_var_def limit_var_def)
  have v: "coerced_values (var_loop sample sample_schema Map.empty [name_var, limit_var] init_state)
             ''name'' = Some (PStr ''x'')"
    by (simp add: var_defs sample_defs name_var_def limit_var_def)
  show ?thesis
    using h v get_variable_values_errors_or_values [of sample sample_schema Map.empty
        "[name_var, limit_var]", THEN conjunct1, rule_format, OF h] e
    by simp
qed

text \<open>
  An iteration reads the inputs at the name of its variable only, and adds no key other
  than that name to the dictionary.
\<close>

lemma var_step_other_input:
  assumes "variable d \<noteq> k"
  shows "var_step c schema (inputs(k := x)) s d = var_step c schema inputs s d"
proof -
  from assms have h: "(inputs(k := x)) (variable d) = inputs (variable d)" by simp
  show ?thesis unfolding var_step_def Let_def h by (rule refl)
qed

lemma var_loop_other_input:
  "k \<notin> variable ` set ds \<Longrightarrow>
   var_loop c schema (inputs(k := x)) ds s = var_loop c schema inputs ds s"
  by (induction ds arbitrary: s) (auto simp: var_step_other_input)

lemma var_step_dom:
  "dom (coerced_values (var_step c schema inputs s d)) \<subseteq> insert (variable d) (dom (coerced_values s))"
  by (auto simp: var_step_def append_new_error_def call_coerce_value_def Let_def
      split: option.splits if_splits)

lemma var_loop_dom:
  "dom (coerced_values (var_loop c schema inputs ds s)) \<subseteq> dom (coerced_values s) \<union> variable ` set ds"
proof (induction ds arbitrary: s)
  case Nil
  then show ?case by simp
next
  case (Cons d ds)
  show ?case
    using Cons.IH [of "var_step c schema inputs s d"] var_step_dom [of c schema inputs s d]
    by auto
qed

text \<open>
  C9.  Every key of a returned dictionary is the name of a declared variable, and the value
  (or the absence) of an input key that no definition declares has no effect on the result:
  it yields neither an entry nor an error.
\<close>

theorem get_variable_values_keys_declared:
  "(\<forall>m. fst (get_variable_values c schema defs inputs) = Inr m \<longrightarrow> dom m \<subseteq> variable ` set defs)
   \<and> (k \<notin> variable ` set defs \<longrightarrow>
        get_variable_values c schema defs (inputs(k := x)) = get_variable_values c schema defs inputs)"
proof (intro conjI allI impI)
  fix m
  assume "fst (get_variable_values c schema defs inputs) = Inr m"
  then have "m = coerced_values (var_loop c schema inputs defs init_state)"
    by (simp add: get_variable_values_def Let_def split: if_splits)
  then show "dom m \<subseteq> variable ` set defs"
    using var_loop_dom [of c schema inputs defs init_state] by (simp add: init_state_def)
next
  assume "k \<notin> variable ` set defs"
  then show "get_variable_values c schema defs (inputs(k := x)) = get_variable_values c schema defs inputs"
    by (simp add: get_variable_values_def var_loop_other_input)
qed

theorem get_variable_values_keys_declared_witness:
  "''other'' \<notin> variable ` set [name_var, flag_var]
   \<and> get_variable_values sample sample_schema [name_var, flag_var]
        [''flag'' \<mapsto> PBool True, ''other'' \<mapsto> PInt 1]
       = get_variable_values sample sample_schema [name_var, flag_var] [''flag'' \<mapsto> PBool True]
   \<and> fst (get_variable_values sample sample_schema [name_var, flag_var]
        [''flag'' \<mapsto> PBool True, ''other'' \<mapsto> PInt 1])
       = Inr [''name'' \<mapsto> PStr ''x'', ''flag'' \<mapsto> PBool True]
   \<and> dom [''name'' \<mapsto> PStr ''x'', ''flag'' \<mapsto> PBool True] \<subseteq> variable ` set [name_var, flag_var]"
proof -
  have k: "''other'' \<notin> variable ` set [name_var, flag_var]"
    by (simp add: name_var_def flag_var_def)
  have r: "fst (get_variable_values sample sample_schema [name_var, flag_var]
        [''flag'' \<mapsto> PBool True, ''other'' \<mapsto> PInt 1])
       = Inr [''name'' \<mapsto> PStr ''x'', ''flag'' \<mapsto> PBool True]"
    by (simp add: var_defs sample_defs name_var_def flag_var_def)
  note t = get_variable_values_keys_declared [of sample sample_schema "[name_var, flag_var]"
      "[''flag'' \<mapsto> PBool True, ''other'' \<mapsto> PInt 1]" "''other''" "Some (PInt 1)"]
  note t2 = get_variable_values_keys_declared [of sample sample_schema "[name_var, flag_var]"
      "[''flag'' \<mapsto> PBool True]" "''other''" "Some (PInt 1)", THEN conjunct2, rule_format, OF k]
  show ?thesis
    using k r t [THEN conjunct1, rule_format, OF r] t2 by simp
qed

text \<open>
  The errors of a failed coercion: the objects of the collaborator with rewritten messages.
  The store of a call is the concatenation of the stores of its parts, and a returned error
  list addresses the whole store.
\<close>

lemma var_step_nested_errors:
  assumes "type_from_ast c schema (type_node d) = Some ty" "is_input_type ty"
    and "inputs (variable d) = Some v" "\<not> (v = PNone \<and> is_non_null_type ty)"
    and "coerced_errors (coerce_value c v ty d) = Some es" "es \<noteq> []"
  shows "heap (var_step c schema inputs init_state d)
           = map (\<lambda>e. e\<lparr>message := invalid_value_prefix c (variable d) v @ message e\<rparr>) es"
  using assms
  by (auto simp: var_step_def init_state_def call_coerce_value_def Let_def
      rewrite_messages_fresh [of _ "[]", simplified])

lemma store_heap:
  "snd (get_variable_values c schema ds inputs) = heap (var_loop c schema inputs ds init_state)"
  by (simp add: get_variable_values_def Let_def)

lemma store_append:
  "snd (get_variable_values c schema (xs @ ys) inputs)
     = snd (get_variable_values c schema xs inputs) @ snd (get_variable_values c schema ys inputs)"
  by (simp add: store_heap var_loop_heap init_state_def)

lemma reported_all:
  "fst (get_variable_values c schema ds inputs) = Inl refs \<Longrightarrow>
   refs = [0 ..< length (snd (get_variable_values c schema ds inputs))]"
  by (auto simp: get_variable_values_def Let_def errors_final split: if_splits)


text \<open>
  C3, as stated, fails: the reported errors are not fresh copies.  For the definition
  \<open>$flag: Boolean\<close> and the input \<open>{"flag": "yes"}\<close> the collaborator returns one error
  object, at address 0 of the store, with the message \<open>Expected type Boolean.\<close>; the call
  reports that very address, the store holds no other object, and the message of the object
  at address 0 is now the prefixed one: the collaborator's object has been assigned to
  (lines 96 to 100).
\<close>

theorem collaborator_error_mutated_in_place:
  "fst (call_coerce_value sample (PStr ''yes'') (GraphQLScalarType ''Boolean'') flag_var [])
     = (Some [0], INVALID)
   \<and> snd (call_coerce_value sample (PStr ''yes'') (GraphQLScalarType ''Boolean'') flag_var []) ! 0
     = \<lparr>message = ''Expected type Boolean.'', nodes = VariableDefinitionRef flag_var\<rparr>
   \<and> fst (get_variable_values sample sample_schema [flag_var] [''flag'' \<mapsto> PStr ''yes'']) = Inl [0]
   \<and> length (snd (get_variable_values sample sample_schema [flag_var] [''flag'' \<mapsto> PStr ''yes''])) = 1
   \<and> snd (get_variable_values sample sample_schema [flag_var] [''flag'' \<mapsto> PStr ''yes'']) ! 0
     = \<lparr>message = ''Variable '' @ quoted ''$flag'' @ '' got invalid value '' @ quoted ''yes''
                    @ ''; Expected type Boolean.'',
        nodes = VariableDefinitionRef flag_var\<rparr>
   \<and> snd (get_variable_values sample sample_schema [flag_var] [''flag'' \<mapsto> PStr ''yes'']) ! 0
     \<noteq> snd (call_coerce_value sample (PStr ''yes'') (GraphQLScalarType ''Boolean'') flag_var []) ! 0"
  by (simp add: var_defs sample_defs flag_var_def)

text \<open>
  C3, amended.  When the collaborator returns a non-empty list of errors for the variable
  \<open>X\<close> with raw value \<open>v\<close>, the reported errors are the collaborator's own objects (the
  addresses it returned are appended to the error list, in order), the message of each has
  been overwritten in place with \<open>Variable '$X' got invalid value <inspect(v)>; \<close>
  followed by its previous message, its other attribute is unchanged, and no object is
  allocated besides those of the collaborator: no copy is made.  Here \<open>h0\<close> is the store
  when the definition is reached, after the definitions \<open>pre\<close>.
\<close>

theorem nested_errors_rewritten_in_place:
  assumes ty: "type_from_ast c schema (type_node d) = Some ty" "is_input_type ty"
    and v: "inputs (variable d) = Some v" "\<not> (v = PNone \<and> is_non_null_type ty)"
    and es: "coerced_errors (coerce_value c v ty d) = Some es" "es \<noteq> []"
    and h0: "h0 = snd (get_variable_values c schema pre inputs)"
  shows "call_coerce_value c v ty d h0
           = ((Some [length h0 ..< length h0 + length es], coerced_result (coerce_value c v ty d)),
              h0 @ es)
         \<and> (\<exists>reported. fst (get_variable_values c schema (pre @ d # post) inputs) = Inl reported
               \<and> take (length es) (drop (length h0) reported)
                   = [length h0 ..< length h0 + length es])
         \<and> (\<forall>i < length es.
               snd (get_variable_values c schema (pre @ d # post) inputs) ! (length h0 + i)
                 = (es ! i)\<lparr>message := invalid_value_prefix c (variable d) v @ message (es ! i)\<rparr>)
         \<and> length (snd (get_variable_values c schema (pre @ [d]) inputs)) = length h0 + length es"
proof -
  let ?new = "map (\<lambda>e. e\<lparr>message := invalid_value_prefix c (variable d) v @ message e\<rparr>) es"
  let ?rest = "snd (get_variable_values c schema post inputs)"
  have one: "snd (get_variable_values c schema [d] inputs) = ?new"
    using var_step_nested_errors [of c schema d ty inputs v es] ty v es by (simp add: store_heap)
  have final: "snd (get_variable_values c schema (pre @ d # post) inputs) = h0 @ ?new @ ?rest"
    using store_append [of c schema pre "[d] @ post" inputs] store_append [of c schema "[d]" post inputs]
    by (simp add: one h0)
  have call: "call_coerce_value c v ty d h0
           = ((Some [length h0 ..< length h0 + length es], coerced_result (coerce_value c v ty d)),
              h0 @ es)"
    by (simp add: call_coerce_value_def es)
  from final es(2) have "error_list (get_variable_values c schema (pre @ d # post) inputs) \<noteq> []"
    by (simp add: error_list_heap store_heap [symmetric])
  then obtain reported
    where rep: "fst (get_variable_values c schema (pre @ d # post) inputs) = Inl reported"
    using result_Inl_iff [of c schema "pre @ d # post" inputs] by blast
  have "reported = [0 ..< length h0 + length es + length ?rest]"
    using reported_all [OF rep] final by (simp add: add.assoc)
  then have "take (length es) (drop (length h0) reported) = [length h0 ..< length h0 + length es]"
    by (simp add: drop_upt take_upt)
  with rep have reported: "\<exists>reported. fst (get_variable_values c schema (pre @ d # post) inputs) = Inl reported
               \<and> take (length es) (drop (length h0) reported)
                   = [length h0 ..< length h0 + length es]"
    by blast
  have cells: "\<forall>i < length es.
               snd (get_variable_values c schema (pre @ d # post) inputs) ! (length h0 + i)
                 = (es ! i)\<lparr>message := invalid_value_prefix c (variable d) v @ message (es ! i)\<rparr>"
    by (simp add: final nth_append)
  have size: "length (snd (get_variable_values c schema (pre @ [d]) inputs)) = length h0 + length es"
    using store_append [of c schema pre "[d]" inputs] by (simp add: one h0)
  from call reported cells size show ?thesis by blast
qed

theorem nested_errors_rewritten_in_place_witness:
  "type_from_ast sample sample_schema (type_node flag_var) = Some (GraphQLScalarType ''Boolean'')
   \<and> is_input_type (GraphQLScalarType ''Boolean'')
   \<and> [''flag'' \<mapsto> PStr ''yes''] (variable flag_var) = Some (PStr ''yes'')
   \<and> \<not> (PStr ''yes'' = PNone \<and> is_non_null_type (GraphQLScalarType ''Boolean''))
   \<and> coerced_errors (coerce_value sample (PStr ''yes'') (GraphQLScalarType ''Boolean'') flag_var)
        = Some [\<lparr>message = ''Expected type Boolean.'', nodes = VariableDefinitionRef flag_var\<rparr>]
   \<and> length (snd (get_variable_values sample sample_schema [limit_var] [''flag'' \<mapsto> PStr ''yes''])) = 1
   \<and> snd (get_variable_values sample sample_schema ([limit_var] @ flag_var # [name_var])
             [''flag'' \<mapsto> PStr ''yes'']) ! 1
        = \<lparr>message = ''Variable '' @ quoted ''$flag'' @ '' got invalid value '' @ quoted ''yes''
                       @ ''; Expected type Boolean.'',
           nodes = VariableDefinitionRef flag_var\<rparr>
   \<and> length (snd (get_variable_values sample sample_schema ([limit_var] @ [flag_var])
             [''flag'' \<mapsto> PStr ''yes''])) = 2"
proof -
  let ?e = "\<lparr>message = ''Expected type Boolean.'', nodes = VariableDefinitionRef flag_var\<rparr>"
  let ?inputs = "[''flag'' \<mapsto> PStr ''yes'']"
  have h1: "type_from_ast sample sample_schema (type_node flag_var) = Some (GraphQLScalarType ''Boolean'')"
    by (simp add: sample_defs flag_var_def)
  have h2: "is_input_type (GraphQLScalarType ''Boolean'')" by simp
  have h3: "?inputs (variable flag_var) = Some (PStr ''yes'')" by (simp add: flag_var_def)
  have h4: "\<not> (PStr ''yes'' = PNone \<and> is_non_null_type (GraphQLScalarType ''Boolean''))" by simp
  have h5: "coerced_errors (coerce_value sample (PStr ''yes'') (GraphQLScalarType ''Boolean'') flag_var)
              = Some [?e]"
    by (simp add: sample_defs)
  have h6: "[?e] \<noteq> []" by simp
  have l: "length (snd (get_variable_values sample sample_schema [limit_var] ?inputs)) = 1"
    by (simp add: var_defs sample_defs limit_var_def)
  note t = nested_errors_rewritten_in_place [of sample sample_schema flag_var
      "GraphQLScalarType ''Boolean''" ?inputs "PStr ''yes''" "[?e]"
      "snd (get_variable_values sample sample_schema [limit_var] ?inputs)" "[limit_var]" "[name_var]",
      OF h1 h2 h3 h4 h5 h6 refl]
  have c: "snd (get_variable_values sample sample_schema ([limit_var] @ flag_var # [name_var]) ?inputs)
             ! (length (snd (get_variable_values sample sample_schema [limit_var] ?inputs)) + 0)
           = ([?e] ! 0)\<lparr>message := invalid_value_prefix sample (variable flag_var) (PStr ''yes'')
                                       @ message ([?e] ! 0)\<rparr>"
    using t [THEN conjunct2, THEN conjunct2, THEN conjunct1, rule_format, of 0] by simp
  have s: "length (snd (get_variable_values sample sample_schema ([limit_var] @ [flag_var]) ?inputs))
             = length (snd (get_variable_values sample sample_schema [limit_var] ?inputs)) + length [?e]"
    using t [THEN conjunct2, THEN conjunct2, THEN conjunct2] .
  have p: "invalid_value_prefix sample (variable flag_var) (PStr ''yes'')
             = ''Variable '' @ quoted ''$flag'' @ '' got invalid value '' @ quoted ''yes'' @ ''; ''"
    by (simp add: invalid_value_prefix_def sample_defs flag_var_def)
  from c have c': "snd (get_variable_values sample sample_schema ([limit_var] @ flag_var # [name_var]) ?inputs) ! 1
        = \<lparr>message = ''Variable '' @ quoted ''$flag'' @ '' got invalid value '' @ quoted ''yes''
                       @ ''; Expected type Boolean.'',
           nodes = VariableDefinitionRef flag_var\<rparr>"
    unfolding l p by simp
  from s have s': "length (snd (get_variable_values sample sample_schema ([limit_var] @ [flag_var]) ?inputs)) = 2"
    unfolding l by simp
  from h1 h2 h3 h4 h5 l c' s' show ?thesis by blast
qed


text \<open>
  The dictionary of a successful call is the sum of what the definitions bind, a later
  binding of a name replacing an earlier one; no definition has then produced an error.
\<close>

lemma foldl_map_add_keep:
  "m0 x = Some w \<Longrightarrow> (\<And>d. d \<in> set ds \<Longrightarrow> B d x = None \<or> B d x = Some w) \<Longrightarrow>
   foldl (++) m0 (map B ds) x = Some w"
proof (induction ds arbitrary: m0)
  case Nil
  then show ?case by simp
next
  case (Cons a ds)
  have "(m0 ++ B a) x = Some w"
    using Cons.prems(1) Cons.prems(2) [of a] by (auto simp: map_add_def)
  then show ?case using Cons.IH [of "m0 ++ B a"] Cons.prems(2) by simp
qed

lemma foldl_map_add_set:
  "d \<in> set ds \<Longrightarrow> B d x = Some w \<Longrightarrow> (\<And>d'. d' \<in> set ds \<Longrightarrow> B d' x = None \<or> B d' x = Some w) \<Longrightarrow>
   foldl (++) m0 (map B ds) x = Some w"
proof (induction ds arbitrary: m0)
  case Nil
  then show ?case by simp
next
  case (Cons a ds)
  show ?case
  proof (cases "B a x = Some w")
    case True
    then have "(m0 ++ B a) x = Some w" by (simp add: map_add_def)
    then show ?thesis
      using foldl_map_add_keep [of "m0 ++ B a" x w ds B] Cons.prems(3) by simp
  next
    case False
    with Cons.prems(1,2) have "d \<in> set ds" by auto
    then show ?thesis using Cons.IH [of "m0 ++ B a"] Cons.prems(2,3) by simp
  qed
qed

lemma foldl_map_add_none:
  "(\<And>d. d \<in> set ds \<Longrightarrow> B d x = None) \<Longrightarrow> foldl (++) m0 (map B ds) x = m0 x"
proof (induction ds arbitrary: m0)
  case Nil
  then show ?case by simp
next
  case (Cons a ds)
  have "(m0 ++ B a) x = m0 x" using Cons.prems [of a] by (simp add: map_add_def)
  then show ?case using Cons.IH [of "m0 ++ B a"] Cons.prems by simp
qed

lemma success_parts:
  assumes "fst (get_variable_values c schema defs inputs) = Inr m"
  shows "m = foldl (++) Map.empty (map (\<lambda>d. coerced_values (var_step c schema inputs init_state d)) defs)"
    and "\<And>d. d \<in> set defs \<Longrightarrow> heap (var_step c schema inputs init_state d) = []"
proof -
  from assms have e: "errors (var_loop c schema inputs defs init_state) = []"
    and m: "m = coerced_values (var_loop c schema inputs defs init_state)"
    by (simp_all add: get_variable_values_def Let_def split: if_splits)
  from m show "m = foldl (++) Map.empty
      (map (\<lambda>d. coerced_values (var_step c schema inputs init_state d)) defs)"
    by (simp add: var_loop_values init_state_def)
  from e have "heap (var_loop c schema inputs defs init_state) = []"
    using errors_final [of c schema inputs defs] by simp
  then show "\<And>d. d \<in> set defs \<Longrightarrow> heap (var_step c schema inputs init_state d) = []"
    by (simp add: var_loop_heap init_state_def)
qed

lemma binding_other:
  "x \<noteq> variable d \<Longrightarrow> coerced_values (var_step c schema inputs init_state d) x = None"
  using var_step_dom [of c schema inputs init_state d] by (auto simp: init_state_def)

lemma binding_null:
  assumes "inputs (variable d) = Some PNone"
    and "heap (var_step c schema inputs init_state d) = []"
    and "\<forall>t d'. \<not> is_non_null_type t \<longrightarrow> coerced_result (coerce_value c PNone t d') = PNone"
  shows "coerced_values (var_step c schema inputs init_state d) (variable d) = Some PNone"
  using assms
  by (auto simp: var_step_def init_state_def append_new_error_def call_coerce_value_def Let_def
      rewrite_messages_fresh [of _ "[]", simplified] split: option.splits if_splits)

lemma binding_absent:
  assumes "inputs (variable d) = None" "default_value d = None"
  shows "coerced_values (var_step c schema inputs init_state d) x = None"
  using assms
  by (auto simp: var_step_def init_state_def append_new_error_def Let_def split: option.splits)

lemma collaborator_consulted:
  assumes "type_from_ast c schema (type_node d) = Some ty" "is_input_type ty"
    and "inputs (variable d) = Some v" "\<not> (v = PNone \<and> is_non_null_type ty)"
    and "heap (var_step c schema inputs init_state d) = []"
  shows "coerced_errors (coerce_value c v ty d) = None \<or> coerced_errors (coerce_value c v ty d) = Some []"
  using assms
  by (auto simp: var_step_def init_state_def call_coerce_value_def Let_def
      rewrite_messages_fresh [of _ "[]", simplified] split: option.splits if_splits)


text \<open>
  C10, as stated, fails in its last part: a variable that is absent from the inputs has a
  dictionary entry when it declares a default.  For \<open>$note: String = null\<close> the call with
  the input \<open>{"note": null}\<close> and the call with no input return the same dictionary,
  which maps \<open>note\<close> to \<open>None\<close>.
\<close>

theorem absent_variable_with_default_has_entry:
  "fst (get_variable_values sample sample_schema [note_var] [''note'' \<mapsto> PNone])
     = Inr [''note'' \<mapsto> PNone]
   \<and> fst (get_variable_values sample sample_schema [note_var] Map.empty) = Inr [''note'' \<mapsto> PNone]
   \<and> [''note'' \<mapsto> PNone] ''note'' = Some PNone"
  by (simp add: var_defs sample_defs note_var_def)

text \<open>
  C10, amended.  For a declared variable of nullable input type whose name is present in
  the inputs with the value \<open>None\<close>, coercion is delegated to the collaborator: a
  dictionary is returned only if the collaborator reports no error for \<open>None\<close> at that
  type, and then, for a collaborator that coerces \<open>None\<close> to \<open>None\<close> at nullable types,
  the dictionary maps the name to \<open>None\<close>.  When no definition of that name declares a
  default, this differs from the call in which the name is absent from the inputs, whose
  dictionary has no entry for the name.
\<close>

theorem null_input_of_nullable_variable:
  assumes d: "d \<in> set defs"
    and ty: "type_from_ast c schema (type_node d) = Some ty" "is_input_type ty"
      "\<not> is_non_null_type ty"
    and null: "inputs (variable d) = Some PNone"
    and contract: "\<forall>t d'. \<not> is_non_null_type t \<longrightarrow> coerced_result (coerce_value c PNone t d') = PNone"
    and success: "fst (get_variable_values c schema defs inputs) = Inr m"
  shows "(coerced_errors (coerce_value c PNone ty d) = None
            \<or> coerced_errors (coerce_value c PNone ty d) = Some [])
         \<and> m (variable d) = Some PNone
         \<and> (\<forall>m'. (\<forall>d'\<in>set defs. variable d' = variable d \<longrightarrow> default_value d' = None)
                  \<and> fst (get_variable_values c schema defs (inputs(variable d := None))) = Inr m'
               \<longrightarrow> m' (variable d) = None)"
proof (intro conjI allI impI)
  let ?B = "\<lambda>d. coerced_values (var_step c schema inputs init_state d)"
  note parts = success_parts [OF success]
  show "coerced_errors (coerce_value c PNone ty d) = None
            \<or> coerced_errors (coerce_value c PNone ty d) = Some []"
    using collaborator_consulted [of c schema d ty inputs PNone] ty null parts(2) [OF d] by simp
  have own: "?B d (variable d) = Some PNone"
    using binding_null [of inputs d c schema] null parts(2) [OF d] contract by simp
  have others: "?B d' (variable d) = None \<or> ?B d' (variable d) = Some PNone" if "d' \<in> set defs" for d'
  proof (cases "variable d' = variable d")
    case True
    then show ?thesis
      using binding_null [of inputs d' c schema] null parts(2) [OF that] contract by simp
  next
    case False
    then show ?thesis using binding_other [of "variable d" d' c schema inputs] by simp
  qed
  show "m (variable d) = Some PNone"
    unfolding parts(1)
    using foldl_map_add_set [of d defs ?B "variable d" PNone Map.empty] d own others by blast
next
  fix m'
  let ?inputs = "inputs(variable d := None)"
  let ?B = "\<lambda>d. coerced_values (var_step c schema ?inputs init_state d)"
  assume a: "(\<forall>d'\<in>set defs. variable d' = variable d \<longrightarrow> default_value d' = None)
               \<and> fst (get_variable_values c schema defs ?inputs) = Inr m'"
  then have m': "m' = foldl (++) Map.empty (map ?B defs)"
    using success_parts(1) [of c schema defs ?inputs m'] by simp
  have "?B d' (variable d) = None" if "d' \<in> set defs" for d'
  proof (cases "variable d' = variable d")
    case True
    with a that have "default_value d' = None" by blast
    then show ?thesis using binding_absent [of ?inputs d' c schema "variable d"] True by simp
  next
    case False
    then show ?thesis using binding_other [of "variable d" d' c schema ?inputs] by simp
  qed
  then show "m' (variable d) = None"
    unfolding m' using foldl_map_add_none [of defs ?B "variable d" Map.empty] by simp
qed


theorem null_input_of_nullable_variable_witness:
  "flag_var \<in> set [flag_var, name_var]
   \<and> type_from_ast sample sample_schema (type_node flag_var) = Some (GraphQLScalarType ''Boolean'')
   \<and> is_input_type (GraphQLScalarType ''Boolean'')
   \<and> \<not> is_non_null_type (GraphQLScalarType ''Boolean'')
   \<and> [''flag'' \<mapsto> PNone] (variable flag_var) = Some PNone
   \<and> fst (get_variable_values sample sample_schema [flag_var, name_var] [''flag'' \<mapsto> PNone])
       = Inr [''flag'' \<mapsto> PNone, ''name'' \<mapsto> PStr ''x'']
   \<and> [''flag'' \<mapsto> PNone, ''name'' \<mapsto> PStr ''x''] (variable flag_var) = Some PNone
   \<and> coerced_errors (coerce_value sample PNone (GraphQLScalarType ''Boolean'') flag_var) = None
   \<and> fst (get_variable_values sample sample_schema [flag_var, name_var] Map.empty)
       = Inr [''name'' \<mapsto> PStr ''x'']
   \<and> [''name'' \<mapsto> PStr ''x''] (variable flag_var) = None"
proof -
  let ?ty = "GraphQLScalarType ''Boolean''"
  let ?inputs = "[''flag'' \<mapsto> PNone]"
  let ?m = "[''flag'' \<mapsto> PNone, ''name'' \<mapsto> PStr ''x'']"
  let ?m' = "[''name'' \<mapsto> PStr ''x'']"
  have d: "flag_var \<in> set [flag_var, name_var]" by simp
  have t1: "type_from_ast sample sample_schema (type_node flag_var) = Some ?ty"
    by (simp add: sample_defs flag_var_def)
  have t2: "is_input_type ?ty" by simp
  have t3: "\<not> is_non_null_type ?ty" by simp
  have n: "?inputs (variable flag_var) = Some PNone" by (simp add: flag_var_def)
  have contract: "\<forall>t d'. \<not> is_non_null_type t \<longrightarrow> coerced_result (coerce_value sample PNone t d') = PNone"
  proof (intro allI impI)
    fix t d'
    assume "\<not> is_non_null_type t"
    then show "coerced_result (coerce_value sample PNone t d') = PNone"
      by (cases t) (simp_all add: sample_defs)
  qed
  have s: "fst (get_variable_values sample sample_schema [flag_var, name_var] ?inputs) = Inr ?m"
    by (simp add: var_defs sample_defs flag_var_def name_var_def)
  have a: "(\<forall>d'\<in>set [flag_var, name_var]. variable d' = variable flag_var \<longrightarrow> default_value d' = None)
           \<and> fst (get_variable_values sample sample_schema [flag_var, name_var]
                  (?inputs(variable flag_var := None))) = Inr ?m'"
    by (simp add: var_defs sample_defs flag_var_def name_var_def)
  have a': "fst (get_variable_values sample sample_schema [flag_var, name_var] Map.empty) = Inr ?m'"
    by (simp add: var_defs sample_defs flag_var_def name_var_def)
  have e: "coerced_errors (coerce_value sample PNone ?ty flag_var) = None"
    by (simp add: sample_defs)
  note t = null_input_of_nullable_variable [of flag_var "[flag_var, name_var]" sample sample_schema
      ?ty ?inputs ?m, OF d t1 t2 t3 n contract s]
  have r1: "?m (variable flag_var) = Some PNone"
    using t [THEN conjunct2, THEN conjunct1] .
  have r2: "?m' (variable flag_var) = None"
    using t [THEN conjunct2, THEN conjunct2, rule_format, of ?m', OF a] .
  from d t1 t2 t3 n s r1 e a' r2 show ?thesis by blast
qed

section \<open>Claims about \<open>get_argument_values\<close>\<close>

lemmas arg_defs = get_argument_values_def arg_step_def coerce_argument_def arg_node_map_def
  out_key_def argument_not_provided_error_def variable_not_provided_error_def
  null_argument_error_def invalid_argument_error_def quoted_def Let_def


text \<open>
  Whether an iteration raises, and what it raises, does not depend on the dictionary built
  so far; an iteration that does not raise adds its binding to the dictionary.
\<close>

lemma arg_loop_append:
  "arg_loop c node vv (xs @ ys) m =
     (case arg_loop c node vv xs m of Inl e \<Rightarrow> Inl e | Inr m' \<Rightarrow> arg_loop c node vv ys m')"
  by (induction xs arbitrary: m) (simp_all split: sum.splits)

lemma coerce_argument_add:
  "coerce_argument c vv m n a vn b =
     (case coerce_argument c vv Map.empty n a vn b of Inl e \<Rightarrow> Inl e | Inr bnd \<Rightarrow> Inr (m ++ bnd))"
  by (simp add: coerce_argument_def Let_def)

lemma arg_step_add:
  "arg_step c node vv m item =
     (case arg_step c node vv Map.empty item of Inl e \<Rightarrow> Inl e | Inr bnd \<Rightarrow> Inr (m ++ bnd))"
proof (cases item)
  case (Pair n a)
  show ?thesis
  proof (cases "arg_node_map node n")
    case None
    then show ?thesis by (simp add: arg_step_def Pair)
  next
    case (Some an)
    show ?thesis
    proof (cases "argument_value an")
      case (VariableNode y)
      then show ?thesis
        using coerce_argument_add [of c vv m n a "VariableNode y"]
        by (simp add: arg_step_def Pair Some Let_def split: option.splits)
    qed (use coerce_argument_add [of c vv m n a "argument_value an"] in
          \<open>simp_all add: arg_step_def Pair Some Let_def\<close>)
  qed
qed


lemma arg_step_error_independent:
  "arg_step c node vv m item = Inl e \<Longrightarrow> arg_step c node vv m' item = Inl e"
  using arg_step_add [of c node vv m item] arg_step_add [of c node vv m' item]
  by (cases "arg_step c node vv Map.empty item") simp_all

lemma get_argument_values_single:
  "get_argument_values c \<lparr>args = [item]\<rparr> node vv = arg_step c node vv Map.empty item"
  by (simp add: get_argument_values_def split: sum.splits)

lemma arg_loop_all_pass:
  "(\<And>i. i \<in> set xs \<Longrightarrow> \<not> isl (arg_step c node vv Map.empty i)) \<Longrightarrow>
   \<exists>m'. arg_loop c node vv xs m = Inr m'"
proof (induction xs arbitrary: m)
  case Nil
  then show ?case by simp
next
  case (Cons a xs)
  have "\<not> isl (arg_step c node vv Map.empty a)"
    using Cons.prems [of a] by simp
  then obtain b where "arg_step c node vv Map.empty a = Inr b"
    by (cases "arg_step c node vv Map.empty a") auto
  then have "arg_step c node vv m a = Inr (m ++ b)"
    using arg_step_add [of c node vv m a] by simp
  then show ?case using Cons.IH [of "m ++ b"] Cons.prems by simp
qed

lemma arg_loop_first_failure:
  assumes "\<And>i. i \<in> set pre \<Longrightarrow> \<not> isl (arg_step c node vv Map.empty i)"
    and "arg_step c node vv Map.empty item = Inl e"
  shows "arg_loop c node vv (pre @ item # post) m = Inl e"
proof -
  from arg_loop_all_pass [of pre c node vv m] assms(1)
  obtain m' where "arg_loop c node vv pre m = Inr m'" by blast
  moreover have "arg_step c node vv m' item = Inl e"
    using assms(2) by (rule arg_step_error_independent)
  ultimately show ?thesis by (simp add: arg_loop_append)
qed


text \<open>
  C6.  \<open>get_argument_values\<close> fails fast.  An argument definition violates its contract
  when the call for this definition alone raises.  If some declared argument does, the
  definitions split at the first such one, in declaration order: the call raises the one
  error of that definition and returns no dictionary, and it does so whatever definitions
  follow, so the later definitions have no part in the outcome.
\<close>

theorem get_argument_values_fails_fast:
  "(\<exists>item\<in>set (args type_def). isl (get_argument_values c \<lparr>args = [item]\<rparr> node vv)) \<longrightarrow>
     (\<exists>pre item post e.
        args type_def = pre @ item # post
        \<and> (\<forall>i\<in>set pre. \<not> isl (get_argument_values c \<lparr>args = [i]\<rparr> node vv))
        \<and> get_argument_values c \<lparr>args = [item]\<rparr> node vv = Inl e
        \<and> get_argument_values c type_def node vv = Inl e
        \<and> (\<forall>post'. get_argument_values c \<lparr>args = pre @ item # post'\<rparr> node vv = Inl e))"
proof
  let ?P = "\<lambda>item. isl (arg_step c node vv Map.empty item)"
  assume "\<exists>item\<in>set (args type_def). isl (get_argument_values c \<lparr>args = [item]\<rparr> node vv)"
  then have "\<exists>item\<in>set (args type_def). ?P item"
    by (simp add: get_argument_values_single)
  then obtain pre item post where split: "args type_def = pre @ item # post"
    and item: "?P item" and pre: "\<forall>i\<in>set pre. \<not> ?P i"
    using split_list_first_prop [of "args type_def" ?P] by blast
  from item obtain e where e: "arg_step c node vv Map.empty item = Inl e"
    by (cases "arg_step c node vv Map.empty item") auto
  have all: "arg_loop c node vv (pre @ item # post') Map.empty = Inl e" for post'
    using arg_loop_first_failure [of pre c node vv item e post' Map.empty] pre e by blast
  have whole: "get_argument_values c type_def node vv = Inl e"
    using all [of post] by (simp add: get_argument_values_def split)
  have later: "\<forall>post'. get_argument_values c \<lparr>args = pre @ item # post'\<rparr> node vv = Inl e"
    using all by (simp add: get_argument_values_def)
  have pre': "\<forall>i\<in>set pre. \<not> isl (get_argument_values c \<lparr>args = [i]\<rparr> node vv)"
    using pre by (simp add: get_argument_values_single)
  have e': "get_argument_values c \<lparr>args = [item]\<rparr> node vv = Inl e"
    using e by (simp add: get_argument_values_single)
  from split pre' e' whole later
  show "\<exists>pre item post e.
        args type_def = pre @ item # post
        \<and> (\<forall>i\<in>set pre. \<not> isl (get_argument_values c \<lparr>args = [i]\<rparr> node vv))
        \<and> get_argument_values c \<lparr>args = [item]\<rparr> node vv = Inl e
        \<and> get_argument_values c type_def node vv = Inl e
        \<and> (\<forall>post'. get_argument_values c \<lparr>args = pre @ item # post'\<rparr> node vv = Inl e)"
    by blast
qed

theorem get_argument_values_fails_fast_witness:
  "isl (get_argument_values sample \<lparr>args = [id_arg]\<rparr> user_node None)
   \<and> get_argument_values sample user_field user_node None
       = Inl \<lparr>message = ''Argument '' @ quoted ''id'' @ '' of required type '' @ quoted ''ID!''
                 @ '' was not provided.'',
              nodes = InvocationRef user_node\<rparr>
   \<and> \<not> isl (get_argument_values sample \<lparr>args = [flag_arg, name_arg]\<rparr> user_node None)"
proof -
  let ?err = "\<lparr>message = ''Argument '' @ quoted ''id'' @ '' of required type '' @ quoted ''ID!''
                 @ '' was not provided.'',
              nodes = InvocationRef user_node\<rparr>"
  have f: "get_argument_values sample \<lparr>args = [id_arg]\<rparr> user_node None = Inl ?err"
    by (simp add: arg_defs sample_defs id_arg_def user_node_def)
  have l: "\<not> isl (get_argument_values sample \<lparr>args = [flag_arg, name_arg]\<rparr> user_node None)"
    by (simp add: arg_defs sample_defs flag_arg_def name_arg_def user_node_def)
  have h: "\<exists>item\<in>set (args user_field).
             isl (get_argument_values sample \<lparr>args = [item]\<rparr> user_node None)"
    using f by (simp add: user_field_def)
  from get_argument_values_fails_fast [of user_field sample user_node None, THEN mp, OF h]
  obtain pre item post e where s: "args user_field = pre @ item # post"
    and p: "\<forall>i\<in>set pre. \<not> isl (get_argument_values sample \<lparr>args = [i]\<rparr> user_node None)"
    and i: "get_argument_values sample \<lparr>args = [item]\<rparr> user_node None = Inl e"
    and w: "get_argument_values sample user_field user_node None = Inl e"
    by blast
  have "pre = []"
  proof (rule ccontr)
    assume "pre \<noteq> []"
    then obtain x xs where pre: "pre = x # xs" by (cases pre) auto
    with s have "x = id_arg" by (simp add: user_field_def)
    with p pre f show False by simp
  qed
  with s have "item = id_arg" by (simp add: user_field_def)
  with i f have "e = ?err" by simp
  with w f l show ?thesis by simp
qed


lemma get_argument_values_snoc:
  "get_argument_values c \<lparr>args = pre @ [item]\<rparr> node vv =
     (case get_argument_values c \<lparr>args = pre\<rparr> node vv of
        Inl e \<Rightarrow> Inl e
      | Inr m \<Rightarrow> arg_step c node vv m item)"
  by (simp add: get_argument_values_def arg_loop_append split: sum.splits)

text \<open>
  C7.  For a declared argument whose AST value is a reference to the variable \<open>y\<close>, after
  the definitions \<open>pre\<close> have given the dictionary \<open>m0\<close>: if \<open>variable_values\<close> is \<open>None\<close>
  or \<open>y\<close> is not one of its keys, the declared default is stored under the output name,
  else an error naming the argument, its type and the variable is raised when the type is
  non-null, else the dictionary is left as it is.  A variable mapped to \<open>None\<close> is a
  different case: no default is applied, a non-null type raises the must-not-be-null error
  and otherwise the value is coerced by \<open>value_from_ast\<close>.
\<close>

theorem unprovided_variable_argument:
  assumes node: "arg_node_map node arg_name = Some argument_node"
    and var: "argument_value argument_node = VariableNode y"
    and before: "get_argument_values c \<lparr>args = pre\<rparr> node vv = Inr m0"
  shows "((vv = None \<or> (\<exists>mv. vv = Some mv \<and> mv y = None)) \<longrightarrow>
           get_argument_values c \<lparr>args = pre @ [(arg_name, arg_def)]\<rparr> node vv =
             (if arg_default_value arg_def \<noteq> INVALID
              then Inr (m0(out_key arg_def arg_name \<mapsto> arg_default_value arg_def))
              else if is_non_null_type (arg_type arg_def)
              then Inl \<lparr>message = ''Argument '' @ quoted arg_name @ '' of required type ''
                          @ quoted (str_type c (arg_type arg_def)) @ '' was provided the variable ''
                          @ quoted (CHR ''$'' # y) @ '' which was not provided a runtime value.'',
                        nodes = ValueNodeRef (VariableNode y)\<rparr>
              else Inr m0))
       \<and> (\<forall>mv. vv = Some mv \<and> mv y = Some PNone \<longrightarrow>
           get_argument_values c \<lparr>args = pre @ [(arg_name, arg_def)]\<rparr> node vv =
             (if is_non_null_type (arg_type arg_def)
              then Inl (null_argument_error c (VariableNode y) arg_name (arg_type arg_def))
              else if value_from_ast c (VariableNode y) (arg_type arg_def) vv = INVALID
              then Inl (invalid_argument_error c (VariableNode y) arg_name)
              else Inr (m0(out_key arg_def arg_name \<mapsto>
                          value_from_ast c (VariableNode y) (arg_type arg_def) vv))))"
proof -
  have step: "get_argument_values c \<lparr>args = pre @ [(arg_name, arg_def)]\<rparr> node vv
                = arg_step c node vv m0 (arg_name, arg_def)"
    by (simp add: get_argument_values_snoc before)
  show ?thesis
    unfolding step
    by (auto simp: arg_step_def node var Let_def variable_not_provided_error_def
        coerce_argument_def)
qed

theorem unprovided_variable_argument_witness:
  "arg_node_map user_by_variable_node ''id'' = Some (ArgumentNode ''id'' (VariableNode ''id''))
   \<and> argument_value (ArgumentNode ''id'' (VariableNode ''id'')) = VariableNode ''id''
   \<and> get_argument_values sample \<lparr>args = []\<rparr> user_by_variable_node (Some Map.empty) = Inr Map.empty
   \<and> get_argument_values sample \<lparr>args = [] @ [(''id'', snd id_arg)]\<rparr> user_by_variable_node
        (Some Map.empty)
       = Inl \<lparr>message = ''Argument '' @ quoted ''id'' @ '' of required type '' @ quoted ''ID!''
                 @ '' was provided the variable '' @ quoted ''$id''
                 @ '' which was not provided a runtime value.'',
              nodes = ValueNodeRef (VariableNode ''id'')\<rparr>
   \<and> get_argument_values sample \<lparr>args = [] @ [(''id'', snd id_arg)]\<rparr> user_by_variable_node
        (Some [''id'' \<mapsto> PNone])
       = Inl \<lparr>message = ''Argument '' @ quoted ''id'' @ '' of non-null type '' @ quoted ''ID!''
                 @ '' must not be null.'',
              nodes = ValueNodeRef (VariableNode ''id'')\<rparr>"
proof -
  let ?an = "ArgumentNode ''id'' (VariableNode ''id'')"
  have n: "arg_node_map user_by_variable_node ''id'' = Some ?an"
    by (simp add: arg_node_map_def user_by_variable_node_def)
  have v: "argument_value ?an = VariableNode ''id''" by simp
  have b: "get_argument_values sample \<lparr>args = []\<rparr> user_by_variable_node vv = Inr Map.empty" for vv
    by (simp add: get_argument_values_def)
  have a: "Some (Map.empty :: string \<rightharpoonup> pyval) = None
           \<or> (\<exists>mv. Some (Map.empty :: string \<rightharpoonup> pyval) = Some mv \<and> mv ''id'' = None)"
    by simp
  have r1: "get_argument_values sample \<lparr>args = [] @ [(''id'', snd id_arg)]\<rparr> user_by_variable_node
              (Some Map.empty)
       = Inl \<lparr>message = ''Argument '' @ quoted ''id'' @ '' of required type '' @ quoted ''ID!''
                 @ '' was provided the variable '' @ quoted ''$id''
                 @ '' which was not provided a runtime value.'',
              nodes = ValueNodeRef (VariableNode ''id'')\<rparr>"
    using unprovided_variable_argument [of user_by_variable_node "''id''" ?an "''id''" sample "[]"
        "Some Map.empty" Map.empty "snd id_arg", OF n v b, THEN conjunct1, rule_format, OF a]
    by (simp add: id_arg_def sample_defs)
  have c: "Some [''id'' \<mapsto> PNone] = Some [''id'' \<mapsto> PNone] \<and> [''id'' \<mapsto> PNone] ''id'' = Some PNone"
    by simp
  have r2: "get_argument_values sample \<lparr>args = [] @ [(''id'', snd id_arg)]\<rparr> user_by_variable_node
              (Some [''id'' \<mapsto> PNone])
       = Inl \<lparr>message = ''Argument '' @ quoted ''id'' @ '' of non-null type '' @ quoted ''ID!''
                 @ '' must not be null.'',
              nodes = ValueNodeRef (VariableNode ''id'')\<rparr>"
    using unprovided_variable_argument [of user_by_variable_node "''id''" ?an "''id''" sample "[]"
        "Some [''id'' \<mapsto> PNone]" Map.empty "snd id_arg", OF n v b, THEN conjunct2, rule_format, OF c]
    by (simp add: id_arg_def sample_defs null_argument_error_def)
  from n v b [of "Some Map.empty"] r1 r2 show ?thesis by blast
qed


section \<open>Claims about \<open>get_directive_values\<close>\<close>

lemma directive_loop_no_match:
  "(\<And>d. d \<in> set ds \<Longrightarrow> directive_name d \<noteq> name directive_def) \<Longrightarrow>
   directive_loop c directive_def vv ds = Inr None"
  by (induction ds) simp_all

lemma directive_loop_first_match:
  "(\<And>p. p \<in> set pre \<Longrightarrow> directive_name p \<noteq> name directive_def) \<Longrightarrow>
   directive_name d = name directive_def \<Longrightarrow>
   directive_loop c directive_def vv (pre @ d # post)
     = map_sum id Some (get_argument_values c directive_def (Directive d) vv)"
  by (induction pre) (simp_all split: sum.splits)


text \<open>
  C8.  \<open>get_directive_values\<close> returns \<open>None\<close>, and no error, for a node without
  directives (the attribute is \<open>None\<close> or an empty list) and for a node none of whose
  directives has the name of the definition; otherwise it returns what
  \<open>get_argument_values\<close> yields for the first directive of that name in the list.
\<close>

theorem get_directive_values_first_match:
  "((directives node = None
       \<or> (\<exists>ds. directives node = Some ds \<and> (\<forall>d\<in>set ds. directive_name d \<noteq> name directive_def)))
      \<longrightarrow> get_directive_values c directive_def node vv = Inr None)
   \<and> (\<forall>pre d post.
         directives node = Some (pre @ d # post)
         \<and> (\<forall>p\<in>set pre. directive_name p \<noteq> name directive_def)
         \<and> directive_name d = name directive_def
         \<longrightarrow> get_directive_values c directive_def node vv
               = map_sum id Some (get_argument_values c directive_def (Directive d) vv))"
proof (intro conjI allI impI)
  assume "directives node = None
       \<or> (\<exists>ds. directives node = Some ds \<and> (\<forall>d\<in>set ds. directive_name d \<noteq> name directive_def))"
  then show "get_directive_values c directive_def node vv = Inr None"
    by (auto simp: get_directive_values_def directive_loop_no_match)
next
  fix pre d post
  assume a: "directives node = Some (pre @ d # post)
         \<and> (\<forall>p\<in>set pre. directive_name p \<noteq> name directive_def)
         \<and> directive_name d = name directive_def"
  then have "directive_loop c directive_def vv (pre @ d # post)
               = map_sum id Some (get_argument_values c directive_def (Directive d) vv)"
    using directive_loop_first_match [of pre directive_def d c vv post] by blast
  with a show "get_directive_values c directive_def node vv
               = map_sum id Some (get_argument_values c directive_def (Directive d) vv)"
    by (simp add: get_directive_values_def)
qed


theorem get_directive_values_first_match_witness:
  "directives skipped_node
     = Some ([DirectiveNode ''deprecated'' None]
             @ DirectiveNode ''skip'' (Some [ArgumentNode ''if'' (VariableNode ''cond'')]) # [])
   \<and> directive_name (DirectiveNode ''deprecated'' None) \<noteq> name skip_directive
   \<and> directive_name (DirectiveNode ''skip'' (Some [ArgumentNode ''if'' (VariableNode ''cond'')]))
       = name skip_directive
   \<and> get_directive_values sample skip_directive skipped_node (Some [''cond'' \<mapsto> PBool True])
       = Inr (Some [''if'' \<mapsto> PBool True])
   \<and> directive_name (DirectiveNode ''deprecated'' None) \<noteq> name include_directive
   \<and> directive_name (DirectiveNode ''skip'' (Some [ArgumentNode ''if'' (VariableNode ''cond'')]))
       \<noteq> name include_directive
   \<and> get_directive_values sample include_directive skipped_node (Some [''cond'' \<mapsto> PBool True])
       = Inr None"
proof -
  let ?skip = "DirectiveNode ''skip'' (Some [ArgumentNode ''if'' (VariableNode ''cond'')])"
  let ?dep = "DirectiveNode ''deprecated'' None"
  let ?vv = "Some [''cond'' \<mapsto> PBool True]"
  have d: "directives skipped_node = Some ([?dep] @ ?skip # [])"
    by (simp add: skipped_node_def)
  have n1: "directive_name ?dep \<noteq> name skip_directive" by (simp add: skip_directive_def)
  have n2: "directive_name ?skip = name skip_directive" by (simp add: skip_directive_def)
  have n3: "directive_name ?dep \<noteq> name include_directive" by (simp add: include_directive_def)
  have n4: "directive_name ?skip \<noteq> name include_directive" by (simp add: include_directive_def)
  have a: "directives skipped_node = Some ([?dep] @ ?skip # [])
         \<and> (\<forall>p\<in>set [?dep]. directive_name p \<noteq> name skip_directive)
         \<and> directive_name ?skip = name skip_directive"
    using d n1 n2 by simp
  have g: "get_argument_values sample skip_directive (Directive ?skip) ?vv = Inr [''if'' \<mapsto> PBool True]"
    by (simp add: arg_defs sample_defs skip_directive_def)
  have r1: "get_directive_values sample skip_directive skipped_node ?vv = Inr (Some [''if'' \<mapsto> PBool True])"
    using get_directive_values_first_match [of skipped_node skip_directive sample ?vv,
        THEN conjunct2, rule_format, OF a] g by simp
  have b: "directives skipped_node = None
       \<or> (\<exists>ds. directives skipped_node = Some ds
              \<and> (\<forall>d\<in>set ds. directive_name d \<noteq> name include_directive))"
    using d n3 n4 by simp
  have r2: "get_directive_values sample include_directive skipped_node ?vv = Inr None"
    using get_directive_values_first_match [of skipped_node include_directive sample ?vv,
        THEN conjunct1, rule_format, OF b] .
  from d n1 n2 r1 n3 n4 r2 show ?thesis by blast
qed

end
